theory Spec2Isabelle
  imports Main "HOL-Library.Word" "HOL-Library.Sublist"
begin

unbundle bit_operations_syntax

section \<open>Process runner: \<open>system\<close>\<close>

text \<open>
  \<open>system\<close> (util.go, lines 65 to 104) starts a child process and waits for it. What the
  operating system does with the child is not part of the program: it is the value of type
  \<open>child\<close> below, and \<open>Cmd_Start\<close> and \<open>Cmd_Wait\<close> are what os/exec returns for it.
  An \<open>*exec.ExitError\<close> carries the process state; \<open>Sys()\<close> of that state is a
  \<open>syscall.WaitStatus\<close> on the platforms Go supports, but the source tests the type
  assertion, so the model keeps the other case too.
\<close>

datatype sys_status = WaitStatus int | OtherSys

datatype go_error = StartError | ExitError sys_status | WaitIOError

datatype child =
    FailsToStart
  | Exits int
  | ExitsOpaque
  | WaitFails

fun Cmd_Start :: "child \<Rightarrow> go_error option" where
  "Cmd_Start FailsToStart = Some StartError"
| "Cmd_Start _ = None"

fun Cmd_Wait :: "child \<Rightarrow> go_error option" where
  "Cmd_Wait (Exits c) = (if c = 0 then None else Some (ExitError (WaitStatus c)))"
| "Cmd_Wait ExitsOpaque = Some (ExitError OtherSys)"
| "Cmd_Wait WaitFails = Some WaitIOError"
| "Cmd_Wait FailsToStart = Some StartError"

text \<open>
  The result of \<open>system\<close> is Go's \<open>error\<close>: \<open>None\<close> is \<open>nil\<close>. The first argument is
  the operating system: the outcome of running an argument vector.
\<close>

definition system :: "(string list \<Rightarrow> child) \<Rightarrow> string list \<Rightarrow> go_error option" where
  "system run args =
     (if length args = 0 then None
      else
        (case Cmd_Start (run args) of
           Some err \<Rightarrow> Some err
         | None \<Rightarrow>
             (case Cmd_Wait (run args) of
                None \<Rightarrow> None
              | Some err \<Rightarrow>
                  (case err of
                     ExitError st \<Rightarrow>
                       (case st of
                          WaitStatus code \<Rightarrow> if code \<noteq> 3010 then Some err else None
                        | OtherSys \<Rightarrow> Some err)
                   | _ \<Rightarrow> Some err))))"

section \<open>Strings and paths\<close>

text \<open>
  Go strings are byte strings: \<open>string\<close>. \<open>Contains\<close> is \<open>strings.Contains\<close>.
\<close>

definition HasPrefix :: "string \<Rightarrow> string \<Rightarrow> bool" where
  "HasPrefix s pre = (take (length pre) s = pre)"

fun Contains :: "string \<Rightarrow> string \<Rightarrow> bool" where
  "Contains [] sub = (sub = [])"
| "Contains (c # cs) sub = (HasPrefix (c # cs) sub \<or> Contains cs sub)"

text \<open>
  Paths. The model takes the slash as the only separator (the names inside an archive and
  the path of a URL always use it); volume names and the backslash of Windows are not
  modelled. \<open>elements\<close> splits a path at its separators, \<open>Clean\<close> is the lexical
  normal form that \<open>filepath.Clean\<close> computes, kept as the list of its elements: the
  empty list is the path of one dot, and a rooted path starts with the empty element, so
  that the list of the empty element alone is the root. \<open>render\<close> writes the elements
  back as a string.
\<close>

type_synonym path = "string list"

fun elements :: "string \<Rightarrow> string list" where
  "elements [] = [[]]"
| "elements (c # cs) =
     (if c = CHR ''/'' then [] # elements cs
      else (case elements cs of [] \<Rightarrow> [[c]] | e # es \<Rightarrow> (c # e) # es))"

definition rooted :: "string \<Rightarrow> bool" where
  "rooted s = (case s of [] \<Rightarrow> False | c # _ \<Rightarrow> c = CHR ''/'')"

definition clean_step :: "bool \<Rightarrow> path \<Rightarrow> string \<Rightarrow> path" where
  "clean_step rt out e =
     (if e = [] \<or> e = ''.'' then out
      else if e = ''..'' then
        (if out \<noteq> [] \<and> last out \<noteq> ''..'' then butlast out
         else if rt then out
         else out @ [''..''])
      else out @ [e])"

definition Clean :: "string \<Rightarrow> path" where
  "Clean s =
     (if rooted s then [] # foldl (clean_step True) [] (elements s)
      else foldl (clean_step False) [] (elements s))"

fun join_sep :: "string list \<Rightarrow> string" where
  "join_sep [] = []"
| "join_sep [e] = e"
| "join_sep (e # es) = e @ ''/'' @ join_sep es"

definition render :: "path \<Rightarrow> string" where
  "render p = (if p = [] then ''.'' else if p = [[]] then ''/'' else join_sep p)"




text \<open>\<open>filepath.Join\<close> of two elements: empty elements are ignored, the rest is cleaned.\<close>

definition filepath_Join :: "string \<Rightarrow> string \<Rightarrow> string" where
  "filepath_Join a b =
     (if a = [] \<and> b = [] then []
      else if a = [] then render (Clean b)
      else if b = [] then render (Clean a)
      else render (Clean (a @ ''/'' @ b)))"

text \<open>The parent of a cleaned path: \<open>filepath.Dir\<close>. The root is its own parent.\<close>

definition parent :: "path \<Rightarrow> path" where
  "parent p = (if p = [[]] then [[]] else butlast p)"

definition filepath_Dir :: "string \<Rightarrow> string" where
  "filepath_Dir s = render (parent (Clean s))"

text \<open>
  \<open>filepath.Ext\<close> scans the path from its end, stops at a separator, and returns the
  suffix that starts at the first dot it meets. \<open>Ext_scan\<close> takes the reversed path.
\<close>

fun Ext_scan :: "string \<Rightarrow> string \<Rightarrow> string" where
  "Ext_scan [] acc = []"
| "Ext_scan (c # cs) acc =
     (if c = CHR ''/'' then []
      else if c = CHR ''.'' then c # acc
      else Ext_scan cs (c # acc))"

definition filepath_Ext :: "string \<Rightarrow> string" where
  "filepath_Ext p = Ext_scan (rev p) []"

section \<open>The file system\<close>

text \<open>
  A file system maps cleaned paths to nodes. The working directory (the empty path), its
  ancestors (paths of two-dot elements only) and the root always exist as directories.
  Permission bits are not recorded: the operations take them as the source passes them and
  ignore them. Each operation returns Go's \<open>error\<close> (\<open>None\<close> is nil) and the new file
  system.
\<close>

datatype node = File string | Dir

type_synonym tree = "path \<rightharpoonup> node"

datatype os_error = EEXIST | ENOENT | ENOTDIR | EISDIR | EIO

definition base_dir :: "path \<Rightarrow> bool" where
  "base_dir p = (p = [[]] \<or> list_all (\<lambda>e. e = ''..'') p)"

definition Stat :: "tree \<Rightarrow> path \<Rightarrow> node option" where
  "Stat fs p = (if base_dir p then Some Dir else fs p)"

definition Mkdir :: "tree \<Rightarrow> path \<Rightarrow> os_error option \<times> tree" where
  "Mkdir fs p =
     (case Stat fs p of
        Some _ \<Rightarrow> (Some EEXIST, fs)
      | None \<Rightarrow>
          (case Stat fs (parent p) of
             Some Dir \<Rightarrow> (None, fs(p \<mapsto> Dir))
           | Some (File _) \<Rightarrow> (Some ENOTDIR, fs)
           | None \<Rightarrow> (Some ENOENT, fs)))"

text \<open>
  \<open>os.MkdirAll\<close>: nothing to do for a directory, an error for a file; otherwise the
  parent is made first, then the directory itself.
\<close>

function MkdirAll :: "tree \<Rightarrow> path \<Rightarrow> os_error option \<times> tree" where
  "MkdirAll fs p =
     (if Stat fs p = Some Dir then (None, fs)
      else if Stat fs p \<noteq> None then (Some ENOTDIR, fs)
      else if parent p \<noteq> [] then
        (case MkdirAll fs (parent p) of
           (Some e, fs') \<Rightarrow> (Some e, fs')
         | (None, fs') \<Rightarrow> Mkdir fs' p)
      else Mkdir fs p)"
  by pat_completeness auto
termination
proof (relation "measure (\<lambda>(fs, p). length p)")
  show "wf (measure (\<lambda>(fs, p). length p))" by simp
next
  fix fs :: tree and p :: path
  assume a: "Stat fs p \<noteq> Some Dir" "\<not> Stat fs p \<noteq> None" "parent p \<noteq> []"
  then have "\<not> base_dir p" by (auto simp: Stat_def)
  then have "p \<noteq> [[]]" "p \<noteq> []" by (auto simp: base_dir_def)
  then show "((fs, parent p), (fs, p)) \<in> measure (\<lambda>(fs, p). length p)"
    by (simp add: parent_def)
qed

text \<open>
  \<open>os.Create\<close> makes an empty file, or empties the one that is there; it fails on a
  directory and where the parent is not a directory.
\<close>

definition Create :: "tree \<Rightarrow> path \<Rightarrow> os_error option \<times> tree" where
  "Create fs p =
     (case Stat fs p of
        Some Dir \<Rightarrow> (Some EISDIR, fs)
      | _ \<Rightarrow>
          (case Stat fs (parent p) of
             Some Dir \<Rightarrow> (None, fs(p \<mapsto> File []))
           | Some (File _) \<Rightarrow> (Some ENOTDIR, fs)
           | None \<Rightarrow> (Some ENOENT, fs)))"

text \<open>Writing through an open file appends to its content.\<close>

definition append_file :: "tree \<Rightarrow> path \<Rightarrow> string \<Rightarrow> tree" where
  "append_file fs p bytes =
     (case fs p of Some (File old) \<Rightarrow> fs(p \<mapsto> File (old @ bytes)) | _ \<Rightarrow> fs)"

text \<open>
  \<open>os.Rename\<close> replaces the target in one step, or fails and changes nothing: the source
  must exist, the target must not be a directory and its parent must be one.
\<close>

definition Rename :: "tree \<Rightarrow> path \<Rightarrow> path \<Rightarrow> os_error option \<times> tree" where
  "Rename fs old new =
     (case fs old of
        None \<Rightarrow> (Some ENOENT, fs)
      | Some n \<Rightarrow>
          if Stat fs new = Some Dir then (Some EISDIR, fs)
          else if Stat fs (parent new) \<noteq> Some Dir then (Some ENOENT, fs)
          else (None, (fs(old := None))(new \<mapsto> n)))"

section \<open>CRC32 and its hexadecimal form: \<open>crc32s\<close>\<close>

text \<open>
  \<open>hash/crc32\<close> with the IEEE polynomial, as the package's table-driven update computes
  it: the table entry of a byte is eight shift steps, and each input byte looks one entry
  up. The checksum is a \<open>uint32\<close>.
\<close>

definition crc_shift :: "32 word \<Rightarrow> 32 word" where
  "crc_shift crc =
     (if crc AND 1 = 1 then drop_bit 1 crc XOR 0xEDB88320 else drop_bit 1 crc)"

definition IEEETable :: "32 word \<Rightarrow> 32 word" where
  "IEEETable i = (crc_shift ^^ 8) i"

definition crc_byte :: "32 word \<Rightarrow> char \<Rightarrow> 32 word" where
  "crc_byte crc v = IEEETable ((crc AND 0xFF) XOR of_nat (of_char v)) XOR drop_bit 8 crc"

definition ChecksumIEEE :: "string \<Rightarrow> 32 word" where
  "ChecksumIEEE s = NOT (foldl crc_byte (NOT 0) s)"

text \<open>The verb \<open>%X\<close> of \<open>fmt.Sprintf\<close>: upper-case hexadecimal, no padding.\<close>

definition hex_digit :: "nat \<Rightarrow> char" where
  "hex_digit d = ''0123456789ABCDEF'' ! d"

fun format_X :: "nat \<Rightarrow> string" where
  "format_X n = (if n < 16 then [hex_digit n] else format_X (n div 16) @ [hex_digit (n mod 16)])"

definition crc32s :: "string \<Rightarrow> string" where
  "crc32s s = format_X (unat (ChecksumIEEE s))"

text \<open>
  The number that a numeral of upper-case hexadecimal digits denotes, to state what
  \<open>format_X\<close> writes.
\<close>

definition digit_value :: "char \<Rightarrow> nat" where
  "digit_value c =
     (case map_of (zip ''0123456789ABCDEF'' [0 ..< 16]) c of Some d \<Rightarrow> d | None \<Rightarrow> 0)"

definition hex_value :: "string \<Rightarrow> nat" where
  "hex_value s = foldl (\<lambda>a c. 16 * a + digit_value c) 0 s"

section \<open>The world outside the program\<close>

text \<open>
  What a call meets outside the program is a value of type \<open>world\<close>: the result of
  \<open>url.Parse\<close> (of which the program reads the field \<open>Path\<close> only), the client that
  \<open>fetch.NewClient\<close> returns and what the network answers to a request, the failures of
  the input and output operations that do not depend on the state of the file system, the
  entries that \<open>zip.OpenReader\<close> finds in an archive (\<open>None\<close> when it returns an error),
  and the package variable \<open>tempPath\<close>, which is declared in another file.
  \<open>copy_fault = Some k\<close> says that \<open>io.Copy\<close> fails after \<open>k\<close> bytes.
\<close>

record URL =
  Path :: string

type_synonym cookie = "string \<times> string"

type_synonym jar = "string \<rightharpoonup> cookie list"

record client =
  Jar :: "jar option"
  Timeout :: "nat option"

record request =
  Method :: string
  RequestURL :: string
  Header :: "string \<rightharpoonup> string"

record response =
  StatusCode :: int
  Body :: string

datatype net_error = BadRequest | TransportError

text \<open>
  An entry of an opened archive, as \<open>archive/zip\<close> presents it: its name, whether
  \<open>FileInfo().IsDir()\<close> holds, its \<open>Mode()\<close>, and its stream. \<open>Open_fails\<close> says that
  \<open>Open()\<close> returns an error; \<open>Read_fault = Some k\<close> says that reading the stream fails
  after \<open>k\<close> bytes of \<open>Content\<close> (a damaged entry), \<open>None\<close> that the whole content is
  read.
\<close>

record zipFile =
  Name :: string
  IsDir :: bool
  Mode :: nat
  Content :: string
  Open_fails :: bool
  Read_fault :: "nat option"

record world =
  url_Parse :: "string \<Rightarrow> URL option"
  zip_OpenReader :: "string \<Rightarrow> zipFile list option"
  NewClient :: client
  client_Do :: "client \<Rightarrow> request \<Rightarrow> net_error + response"
  create_fault :: "string \<Rightarrow> bool"
  copy_fault :: "nat option"
  close_fault :: bool
  rename_fault :: bool
  tempPath :: string

section \<open>Content fetcher: \<open>CustomGet\<close>\<close>

definition NewRequest :: "world \<Rightarrow> string \<Rightarrow> string \<Rightarrow> request option" where
  "NewRequest w method urlStr =
     (case url_Parse w urlStr of
        None \<Rightarrow> None
      | Some u \<Rightarrow> Some \<lparr>Method = method, RequestURL = urlStr, Header = Map.empty\<rparr>)"

definition Header_Set :: "request \<Rightarrow> string \<Rightarrow> string \<Rightarrow> request" where
  "Header_Set r k v = r\<lparr>Header := (Header r)(k \<mapsto> v)\<rparr>"

definition SetCookies :: "jar \<Rightarrow> string \<Rightarrow> cookie list \<Rightarrow> jar" where
  "SetCookies j u cs = j(u \<mapsto> cs)"

definition oracleCookies :: "cookie list" where
  "oracleCookies = [(''oraclelicense'', ''accept-securebackup-cookie'')]"

text \<open>
  \<open>CustomGet_prepare\<close> is \<open>CustomGet\<close> up to its last line: the request and the client
  that are handed to \<open>client.Do\<close>. The variadic \<open>timeout\<close> is a list.
\<close>

definition CustomGet_prepare :: "world \<Rightarrow> string \<Rightarrow> nat list \<Rightarrow> (client \<times> request) option" where
  "CustomGet_prepare w urlStr timeout =
     (case NewRequest w ''GET'' urlStr of
        None \<Rightarrow> None
      | Some request \<Rightarrow>
          (let request1 =
                 (if Contains urlStr ''download-codeplex.sec.s-msft.com''
                  then Header_Set request ''User-Agent'' ''chocolatey command line''
                  else request);
               request2 =
                 (if Contains urlStr ''ati.com''
                  then Header_Set request1 ''Referer'' ''http://support.amd.com/''
                  else request1);
               jar1 = SetCookies Map.empty ''http://download.oracle.com'' oracleCookies;
               jar2 = SetCookies jar1 ''https://edelivery.oracle.com'' oracleCookies;
               client1 = (NewClient w)\<lparr>Jar := Some jar2\<rparr>;
               client2 =
                 (if length timeout > 0 then client1\<lparr>Timeout := Some (hd timeout)\<rparr>
                  else client1)
           in Some (client2, request2)))"

definition CustomGet :: "world \<Rightarrow> string \<Rightarrow> nat list \<Rightarrow> net_error + response" where
  "CustomGet w urlStr timeout =
     (case CustomGet_prepare w urlStr timeout of
        None \<Rightarrow> Inl BadRequest
      | Some (cl, req) \<Rightarrow> client_Do w cl req)"

section \<open>Cache manager: \<open>download\<close>, \<open>maybeDownload\<close>, \<open>downloadTemp\<close>, \<open>downloadExt\<close>\<close>

text \<open>
  The state is the file system and the trace of the operations the program has issued on
  the file system and on the network, in order, each under the name the program passed.
  \<open>log.Fatalf\<close> ends the process: a call that meets it returns the fatal error and the
  state at that point.
\<close>

datatype event =
    EvCreate string
  | EvGet string
  | EvWrite string string
  | EvClose string
  | EvRename string string

record state =
  fs :: tree
  trace :: "event list"

datatype fatal =
    UnableToParseURL string
  | UnableToOpenDestination string
  | UnableToConnect string
  | UnexpectedStatus int
  | ErrorDownloading
  | CannotClose
  | CannotRename string string

definition emit :: "state \<Rightarrow> event \<Rightarrow> state" where
  "emit st e = st\<lparr>trace := trace st @ [e]\<rparr>"

definition os_Create :: "world \<Rightarrow> tree \<Rightarrow> string \<Rightarrow> os_error option \<times> tree" where
  "os_Create w t name = (if create_fault w name then (Some EIO, t) else Create t (Clean name))"

definition io_Copy :: "world \<Rightarrow> string \<Rightarrow> os_error option \<times> string" where
  "io_Copy w body =
     (case copy_fault w of None \<Rightarrow> (None, body) | Some k \<Rightarrow> (Some EIO, take k body))"

definition os_Rename :: "world \<Rightarrow> tree \<Rightarrow> string \<Rightarrow> string \<Rightarrow> os_error option \<times> tree" where
  "os_Rename w t old new =
     (if rename_fault w then (Some EIO, t) else Rename t (Clean old) (Clean new))"

text \<open>
  \<open>download\<close> (lines 159 to 206). The progress bar only reads the response and draws on
  the terminal; it is left out.
\<close>

definition download :: "world \<Rightarrow> state \<Rightarrow> string \<Rightarrow> string \<Rightarrow> fatal option \<times> state" where
  "download w st rawurl destinationPath =
     (let tempDestinationPath = destinationPath @ ''.tmp'';
          st1 = emit st (EvCreate tempDestinationPath)
      in case os_Create w (fs st1) tempDestinationPath of
           (Some err, t1) \<Rightarrow> (Some (UnableToOpenDestination tempDestinationPath), st1)
         | (None, t1) \<Rightarrow>
             (let st2 = emit (st1\<lparr>fs := t1\<rparr>) (EvGet rawurl)
              in case CustomGet w rawurl [] of
                   Inl err \<Rightarrow> (Some (UnableToConnect rawurl), st2)
                 | Inr response \<Rightarrow>
                     if StatusCode response \<noteq> 200
                     then (Some (UnexpectedStatus (StatusCode response)), st2)
                     else
                       (case io_Copy w (Body response) of (copy_err, written) \<Rightarrow>
                          (let st3 = emit (st2\<lparr>fs := append_file (fs st2)
                                                   (Clean tempDestinationPath) written\<rparr>)
                                       (EvWrite tempDestinationPath written)
                           in if copy_err \<noteq> None then (Some ErrorDownloading, st3)
                              else
                                (let st4 = emit st3 (EvClose tempDestinationPath)
                                 in if close_fault w then (Some CannotClose, st4)
                                    else
                                      (let st5 = emit st4
                                                   (EvRename tempDestinationPath destinationPath)
                                       in case os_Rename w (fs st5) tempDestinationPath
                                                 destinationPath of
                                            (Some err, t5) \<Rightarrow>
                                              (Some (CannotRename tempDestinationPath
                                                       destinationPath), st5)
                                          | (None, t5) \<Rightarrow> (None, st5\<lparr>fs := t5\<rparr>)))))))"

text \<open>\<open>dry.FileExists\<close> is \<open>os.Stat\<close> without an error.\<close>

definition FileExists :: "tree \<Rightarrow> string \<Rightarrow> bool" where
  "FileExists t name = (Stat t (Clean name) \<noteq> None)"

definition maybeDownload ::
  "world \<Rightarrow> state \<Rightarrow> string \<Rightarrow> string \<Rightarrow> bool \<Rightarrow> fatal option \<times> state" where
  "maybeDownload w st rawurl destinationPath force =
     (if \<not> FileExists (fs st) destinationPath \<or> force
      then download w st rawurl destinationPath
      else (None, st))"

definition downloadTemp ::
  "world \<Rightarrow> state \<Rightarrow> string \<Rightarrow> string \<Rightarrow> bool \<Rightarrow> (fatal + string) \<times> state" where
  "downloadTemp w st rawurl filename force =
     (let ret = filepath_Join (tempPath w) filename
      in case maybeDownload w st rawurl ret force of
           (Some f, st') \<Rightarrow> (Inl f, st')
         | (None, st') \<Rightarrow> (Inr ret, st'))"

definition downloadExt ::
  "world \<Rightarrow> state \<Rightarrow> string \<Rightarrow> string \<Rightarrow> bool \<Rightarrow> (fatal + string) \<times> state" where
  "downloadExt w st rawurl ext force =
     (case url_Parse w rawurl of
        None \<Rightarrow> (Inl (UnableToParseURL rawurl), st)
      | Some u \<Rightarrow>
          (let base = (if ext \<noteq> [] then crc32s rawurl @ ext
                       else crc32s rawurl @ filepath_Ext (Path u))
           in downloadTemp w st rawurl base force))"

definition downloadAutoExt ::
  "world \<Rightarrow> state \<Rightarrow> string \<Rightarrow> bool \<Rightarrow> (fatal + string) \<times> state" where
  "downloadAutoExt w st rawurl force = downloadExt w st rawurl [] force"

section \<open>String expander: \<open>environMap\<close> and \<open>expandString\<close>\<close>

text \<open>
  \<open>strings.SplitN(v, "=", 2)\<close>: the part before the first equals sign and the rest, or
  the string alone when it has none.
\<close>

fun SplitN2 :: "string \<Rightarrow> string list" where
  "SplitN2 [] = [[]]"
| "SplitN2 (c # cs) =
     (if c = CHR ''='' then [[], cs]
      else (case SplitN2 cs of
              [k, v] \<Rightarrow> [c # k, v]
            | _ \<Rightarrow> [c # cs]))"

text \<open>
  \<open>strings.ToUpper\<close> is modelled on strings of ASCII bytes only, where it maps the
  letters a to z and keeps every other byte. On other strings Go maps the letters of all
  of Unicode and rewrites invalid UTF-8; \<open>environMap\<close> below calls \<open>ToUpper\<close> on ASCII
  names only and answers \<open>NotModelled\<close> for an environment with any other name.
\<close>

definition is_ascii :: "string \<Rightarrow> bool" where
  "is_ascii s = list_all (\<lambda>c. (of_char c :: nat) < 128) s"

definition upper_char :: "char \<Rightarrow> char" where
  "upper_char c =
     (case map_of (zip ''abcdefghijklmnopqrstuvwxyz'' ''ABCDEFGHIJKLMNOPQRSTUVWXYZ'') c of
        Some u \<Rightarrow> u
      | None \<Rightarrow> c)"

definition ToUpper :: "string \<Rightarrow> string" where
  "ToUpper s = map upper_char s"

text \<open>
  \<open>strings.Replace(s, old, new, -1)\<close> for a non-empty \<open>old\<close>: every occurrence, from the
  left, without overlap. The counter says how many bytes of a match are still to be
  skipped.
\<close>

fun replace_from :: "string \<Rightarrow> string \<Rightarrow> nat \<Rightarrow> string \<Rightarrow> string" where
  "replace_from old new skip [] = []"
| "replace_from old new (Suc k) (c # cs) = replace_from old new k cs"
| "replace_from old new 0 (c # cs) =
     (if old \<noteq> [] \<and> HasPrefix (c # cs) old
      then new @ replace_from old new (length old - 1) cs
      else c # replace_from old new 0 cs)"

definition Replace :: "string \<Rightarrow> string \<Rightarrow> string \<Rightarrow> string" where
  "Replace s old new = replace_from old new 0 s"

text \<open>
  A Go panic ends \<open>expandString\<close>: the index out of range in \<open>environMap\<close> on an entry
  without an equals sign (both \<open>split[0] == "" && split[1] == ""\<close> and the assignment read
  \<open>split[1]\<close>), and the panic of \<open>template.Must\<close> on a template that does not parse.
\<close>

datatype panic = IndexOutOfRange | TemplateParse

text \<open>
  What a call of the string expander comes to: it returns a value, it panics, or it meets
  input on which the model does not follow the program (\<open>NotModelled\<close>: nothing is
  claimed about the program then).
\<close>

datatype 'a outcome = Returned 'a | Panicked panic | NotModelled

fun environ_loop :: "string list \<Rightarrow> (string \<rightharpoonup> string) \<Rightarrow> (string \<rightharpoonup> string) outcome" where
  "environ_loop [] ret = Returned ret"
| "environ_loop (v # env) ret =
     (case SplitN2 v of
        [k, val] \<Rightarrow>
          if k = [] \<and> val = [] then environ_loop env ret
          else if \<not> is_ascii k then NotModelled
          else environ_loop env (ret(Replace (ToUpper k) ''(X86)'' ''_X86'' \<mapsto> val))
      | _ \<Rightarrow> Panicked IndexOutOfRange)"

text \<open>The argument is \<open>os.Environ()\<close>.\<close>

definition environMap :: "string list \<Rightarrow> (string \<rightharpoonup> string) outcome" where
  "environMap environ = environ_loop environ Map.empty"

text \<open>
  The fragment of \<open>text/template\<close> that is modelled: literal text and actions that are a
  single field of the data, \<open>{{.NAME}}\<close>, with blanks allowed around the field. An action
  that is never closed and an empty action are parse errors; every other action (pipelines,
  functions, control structures, comments, trim markers, chained fields) is outside the
  fragment, and the model then answers \<open>Unsupported\<close> and says nothing about the program.
\<close>

datatype tmpl_node = TextNode string | FieldNode string

datatype parse_result = Parsed "tmpl_node list" | ParseError | Unsupported

definition is_blank :: "char \<Rightarrow> bool" where
  "is_blank c = (c = CHR '' '' \<or> c = CHR 0x09)"

definition is_digit :: "char \<Rightarrow> bool" where
  "is_digit c = (let n = (of_char c :: nat) in 48 \<le> n \<and> n \<le> 57)"

definition is_alnum :: "char \<Rightarrow> bool" where
  "is_alnum c =
     (let n = (of_char c :: nat)
      in (48 \<le> n \<and> n \<le> 57) \<or> (65 \<le> n \<and> n \<le> 90) \<or> (97 \<le> n \<and> n \<le> 122) \<or> n = 95)"

definition trim_blanks :: "string \<Rightarrow> string" where
  "trim_blanks s = rev (dropWhile is_blank (rev (dropWhile is_blank s)))"

datatype action = Field string | EmptyAction | OtherAction

definition classify :: "string \<Rightarrow> action" where
  "classify a =
     (case trim_blanks a of
        [] \<Rightarrow> EmptyAction
      | c # name \<Rightarrow>
          if c = CHR ''.'' \<and> name \<noteq> [] \<and> list_all is_alnum name \<and> \<not> is_digit (hd name)
          then Field name else OtherAction)"

definition add_text :: "string \<Rightarrow> parse_result \<Rightarrow> parse_result" where
  "add_text racc r =
     (case r of
        Parsed ns \<Rightarrow> Parsed (if racc = [] then ns else TextNode (rev racc) # ns)
      | _ \<Rightarrow> r)"

definition add_field :: "string \<Rightarrow> parse_result \<Rightarrow> parse_result" where
  "add_field f r = (case r of Parsed ns \<Rightarrow> Parsed (FieldNode f # ns) | _ \<Rightarrow> r)"

text \<open>
  The lexer and parser in one pass: \<open>lex_text\<close> collects literal text up to the left
  delimiter, \<open>lex_action\<close> the action up to the right delimiter. Both collect in reverse.
\<close>

fun lex_text :: "string \<Rightarrow> string \<Rightarrow> parse_result"
  and lex_action :: "string \<Rightarrow> string \<Rightarrow> parse_result" where
  "lex_text racc [] = add_text racc (Parsed [])"
| "lex_text racc [c] = add_text (c # racc) (Parsed [])"
| "lex_text racc (c # d # cs) =
     (if c = CHR ''{'' \<and> d = CHR ''{'' then
        (case lex_action [] cs of
           ParseError \<Rightarrow> ParseError
         | r \<Rightarrow> add_text racc r)
      else lex_text (c # racc) (d # cs))"
| "lex_action racc [] = ParseError"
| "lex_action racc [c] = ParseError"
| "lex_action racc (c # d # cs) =
     (if c = CHR ''}'' \<and> d = CHR ''}'' then
        (case classify (rev racc) of
           Field f \<Rightarrow> add_field f (lex_text [] cs)
         | EmptyAction \<Rightarrow> ParseError
         | OtherAction \<Rightarrow> Unsupported)
      else lex_action (c # racc) (d # cs))"

definition Parse :: "string \<Rightarrow> parse_result" where
  "Parse s = lex_text [] s"

text \<open>
  Execution on data of type \<open>map[string]string\<close>, with the default option
  \<open>missingkey=default\<close>, which the source does not change: a field that is a key of the map
  prints its value; a field that is not prints the words \<open>no value\<close> between angle
  brackets, and execution goes on.
\<close>

definition exec_node :: "(string \<rightharpoonup> string) \<Rightarrow> tmpl_node \<Rightarrow> string" where
  "exec_node data n =
     (case n of
        TextNode t \<Rightarrow> t
      | FieldNode f \<Rightarrow> (case data f of Some v \<Rightarrow> v | None \<Rightarrow> ''<no value>''))"

definition Execute :: "tmpl_node list \<Rightarrow> (string \<rightharpoonup> string) \<Rightarrow> string" where
  "Execute ns data = concat (map (exec_node data) ns)"

text \<open>
  \<open>expandString\<close> (lines 29 to 42). The result of \<open>Execute\<close> is dropped by the source;
  in the fragment it is always nil.
\<close>

definition expandString :: "string list \<Rightarrow> string \<Rightarrow> (string \<rightharpoonup> string) \<Rightarrow> string outcome" where
  "expandString environ s context =
     (case environMap environ of
        Panicked p \<Rightarrow> Panicked p
      | NotModelled \<Rightarrow> NotModelled
      | Returned env \<Rightarrow>
          (let data = env ++ context
           in case Parse s of
                ParseError \<Rightarrow> Panicked TemplateParse
              | Unsupported \<Rightarrow> NotModelled
              | Parsed ns \<Rightarrow> Returned (Execute ns data)))"

section \<open>Archive extractor: \<open>extractZip\<close>\<close>

text \<open>
  \<open>extractZip\<close> (lines 245 to 284) works on the file system alone. The results of
  \<open>os.MkdirAll\<close> and of \<open>io.Copy\<close> are dropped, as the source drops them: only
  \<open>zip.OpenReader\<close>, \<open>os.Create\<close> and \<open>Open\<close> can make it return an error.
\<close>

datatype extract_error = ArchiveError | CreateError os_error | EntryError

definition os_MkdirAll :: "tree \<Rightarrow> string \<Rightarrow> nat \<Rightarrow> os_error option \<times> tree" where
  "os_MkdirAll t name perm = MkdirAll t (Clean name)"



text \<open>What \<open>io.Copy\<close> moves from the stream of an entry before it returns.\<close>

definition copied :: "zipFile \<Rightarrow> string" where
  "copied zipFile =
     (case Read_fault zipFile of None \<Rightarrow> Content zipFile | Some k \<Rightarrow> take k (Content zipFile))"

fun extract_entries ::
  "world \<Rightarrow> tree \<Rightarrow> string \<Rightarrow> zipFile list \<Rightarrow> extract_error option \<times> tree" where
  "extract_entries w t extractTo [] = (None, t)"
| "extract_entries w t extractTo (zipFile # rest) =
     (let destinationPath = filepath_Join extractTo (Name zipFile)
      in if IsDir zipFile
         then extract_entries w (snd (os_MkdirAll t destinationPath (Mode zipFile)))
                extractTo rest
         else
           (let t1 = snd (os_MkdirAll t (filepath_Dir destinationPath) 511)
            in case os_Create w t1 destinationPath of
                 (Some err, t2) \<Rightarrow> (Some (CreateError err), t2)
               | (None, t2) \<Rightarrow>
                   if Open_fails zipFile then (Some EntryError, t2)
                   else extract_entries w
                          (append_file t2 (Clean destinationPath) (copied zipFile))
                          extractTo rest))"

definition extractZip :: "world \<Rightarrow> tree \<Rightarrow> string \<Rightarrow> string \<Rightarrow> extract_error option \<times> tree" where
  "extractZip w t path extractTo =
     (let t0 = snd (os_MkdirAll t extractTo 448)
      in case zip_OpenReader w path of
           None \<Rightarrow> (Some ArchiveError, t0)
         | Some files \<Rightarrow> extract_entries w t0 extractTo files)"

text \<open>
  Two observations on a trace: the names an operation acts on, and the requests sent to
  the network so far.
\<close>

fun event_names :: "event \<Rightarrow> string list" where
  "event_names (EvCreate p) = [p]"
| "event_names (EvGet u) = []"
| "event_names (EvWrite p bytes) = [p]"
| "event_names (EvClose p) = [p]"
| "event_names (EvRename old new) = [old, new]"

fun requested :: "event list \<Rightarrow> string list" where
  "requested [] = []"
| "requested (EvGet u # es) = u # requested es"
| "requested (e # es) = requested es"

section \<open>Example inputs\<close>

text \<open>
  A world in which every URL parses, the server answers 200 with a six-byte body, and no
  operation fails; a file system that holds the cache directory and nothing else. The
  closed instances of the theorems below start from these and change one field.
\<close>

definition example_world :: world where
  "example_world =
     \<lparr>url_Parse = (\<lambda>u. Some \<lparr>Path = ''/files/setup.exe''\<rparr>),
      zip_OpenReader = (\<lambda>n. Some [\<lparr>Name = ''a/b.txt'', IsDir = False, Mode = 420,
                                      Content = ''hello'', Open_fails = False,
                                      Read_fault = None\<rparr>]),
      NewClient = \<lparr>Jar = None, Timeout = None\<rparr>,
      client_Do = (\<lambda>c r. Inr \<lparr>StatusCode = 200, Body = ''MZdata''\<rparr>),
      create_fault = (\<lambda>n. False),
      copy_fault = None,
      close_fault = False,
      rename_fault = False,
      tempPath = ''cache''\<rparr>"

definition example_state :: state where
  "example_state = \<lparr>fs = [[''cache''] \<mapsto> Dir], trace = []\<rparr>"

section \<open>Theorems\<close>

text \<open>
  C1. For every non-empty argument vector run through \<open>system\<close>: a child that exits with
  code 0 gives nil; a child that exits with code 3010 gives nil as well (the reboot-required
  code is not propagated); a child that exits with any other non-zero code gives the exit
  error that carries this code; a child that cannot be started gives the start error.
\<close>

theorem system_exit_codes:
  "args \<noteq> [] \<Longrightarrow>
     (run args = Exits 0 \<longrightarrow> system run args = None) \<and>
     (run args = Exits 3010 \<longrightarrow> system run args = None) \<and>
     (\<forall>c. run args = Exits c \<and> c \<noteq> 0 \<and> c \<noteq> 3010 \<longrightarrow>
          system run args = Some (ExitError (WaitStatus c))) \<and>
     (run args = FailsToStart \<longrightarrow> system run args = Some StartError)"
  by (simp add: system_def)

theorem system_exit_codes_witness:
  "system (\<lambda>a. Exits 0) [''msiexec''] = None \<and>
   system (\<lambda>a. Exits 3010) [''msiexec'', ''/i''] = None \<and>
   system (\<lambda>a. Exits 1603) [''msiexec''] = Some (ExitError (WaitStatus 1603)) \<and>
   system (\<lambda>a. FailsToStart) [''nothing.exe''] = Some StartError"
  using system_exit_codes [of "[''msiexec'']" "\<lambda>a. Exits 0"]
        system_exit_codes [of "[''msiexec'', ''/i'']" "\<lambda>a. Exits 3010"]
        system_exit_codes [of "[''msiexec'']" "\<lambda>a. Exits 1603"]
        system_exit_codes [of "[''nothing.exe'']" "\<lambda>a. FailsToStart"]
  by simp

subsection \<open>The temporary name never denotes the final path\<close>

lemma elements_not_Nil: "elements s \<noteq> []"
  by (induction s) (auto split: list.splits)

lemma elements_no_sep: "CHR ''/'' \<notin> set t \<Longrightarrow> elements t = [t]"
  by (induction t) (auto split: list.splits)

lemma elements_append_no_sep:
  "CHR ''/'' \<notin> set t \<Longrightarrow> elements (s @ t) = butlast (elements s) @ [last (elements s) @ t]"
proof (induction s)
  case Nil
  then show ?case by (simp add: elements_no_sep)
next
  case (Cons c s)
  obtain e es where es: "elements s = e # es"
    using elements_not_Nil [of s] by (cases "elements s") auto
  show ?case
  proof (cases "c = CHR ''/''")
    case True
    then show ?thesis using Cons es by simp
  next
    case False
    then show ?thesis using Cons es by (cases es) auto
  qed
qed

lemma rooted_append: "rooted (d @ ''.tmp'') = rooted d"
  by (cases d) (simp_all add: rooted_def)

lemma clean_step_tmp: "clean_step rt out (l @ ''.tmp'') = out @ [l @ ''.tmp'']"
  by (cases l; cases "tl l"; cases "tl (tl l)") (auto simp: clean_step_def)

lemma clean_step_neq: "clean_step rt out l \<noteq> out @ [l @ ''.tmp'']"
proof -
  have "butlast out \<noteq> out @ [l @ ''.tmp'']"
  proof
    assume "butlast out = out @ [l @ ''.tmp'']"
    then have "length (butlast out) = length (out @ [l @ ''.tmp''])" by simp
    then show False by simp
  qed
  then show ?thesis by (auto simp: clean_step_def)
qed

lemma Clean_tmp_neq: "Clean (d @ ''.tmp'') \<noteq> Clean d"
proof -
  let ?es = "elements d"
  have e1: "elements (d @ ''.tmp'') = butlast ?es @ [last ?es @ ''.tmp'']"
    by (rule elements_append_no_sep) simp
  have e2: "?es = butlast ?es @ [last ?es]"
    using elements_not_Nil [of d] by simp
  have f1: "foldl (clean_step rt) [] (elements (d @ ''.tmp''))
             = foldl (clean_step rt) [] (butlast ?es) @ [last ?es @ ''.tmp'']" for rt
    unfolding e1 by (simp add: clean_step_tmp)
  have f2: "foldl (clean_step rt) [] ?es
             = clean_step rt (foldl (clean_step rt) [] (butlast ?es)) (last ?es)" for rt
    by (subst e2) (simp only: foldl_append foldl.simps)
  show ?thesis
    unfolding Clean_def rooted_append f1 f2
    using clean_step_neq [of True "foldl (clean_step True) [] (butlast ?es)" "last ?es"]
          clean_step_neq [of False "foldl (clean_step False) [] (butlast ?es)" "last ?es"]
    by (auto simp del: foldl_append dest: sym)
qed

subsection \<open>The outcomes of \<open>download\<close>\<close>

lemma Create_cases:
  "Create t p = (err, t') \<Longrightarrow>
     (err \<noteq> None \<and> t' = t) \<or> (err = None \<and> t' = t(p \<mapsto> File []))"
  by (auto simp: Create_def split: option.splits node.splits)

lemma os_Create_cases:
  "os_Create w t name = (err, t') \<Longrightarrow>
     (err \<noteq> None \<and> t' = t) \<or> (err = None \<and> t' = t(Clean name \<mapsto> File []))"
  by (auto simp: os_Create_def dest: Create_cases split: if_splits)

lemma os_Rename_cases:
  "os_Rename w t old new = (err, t') \<Longrightarrow>
     (err \<noteq> None \<and> t' = t) \<or>
     (err = None \<and> (\<exists>n. t (Clean old) = Some n \<and> t' = (t(Clean old := None))(Clean new \<mapsto> n)))"
  by (auto simp: os_Rename_def Rename_def split: if_splits option.splits)

lemma io_Copy_cases:
  "io_Copy w body = (err, written) \<Longrightarrow>
     (err = None \<and> written = body \<and> copy_fault w = None) \<or>
     (err \<noteq> None \<and> (\<exists>k. copy_fault w = Some k \<and> written = take k body))"
  by (auto simp: io_Copy_def split: option.splits)

lemma download_cases:
  assumes "download w st rawurl dest = (res, st')"
  shows
    "(res = Some (UnableToOpenDestination (dest @ ''.tmp'')) \<and>
        fst (os_Create w (fs st) (dest @ ''.tmp'')) \<noteq> None \<and>
        st' = st\<lparr>trace := trace st @ [EvCreate (dest @ ''.tmp'')]\<rparr>) \<or>
     (res = Some (UnableToConnect rawurl) \<and>
        fst (os_Create w (fs st) (dest @ ''.tmp'')) = None \<and>
        (\<exists>e. CustomGet w rawurl [] = Inl e) \<and>
        st' = st\<lparr>fs := (fs st)(Clean (dest @ ''.tmp'') \<mapsto> File []),
                  trace := trace st @ [EvCreate (dest @ ''.tmp''), EvGet rawurl]\<rparr>) \<or>
     (\<exists>r. CustomGet w rawurl [] = Inr r \<and> StatusCode r \<noteq> 200 \<and>
        fst (os_Create w (fs st) (dest @ ''.tmp'')) = None \<and>
        res = Some (UnexpectedStatus (StatusCode r)) \<and>
        st' = st\<lparr>fs := (fs st)(Clean (dest @ ''.tmp'') \<mapsto> File []),
                  trace := trace st @ [EvCreate (dest @ ''.tmp''), EvGet rawurl]\<rparr>) \<or>
     (\<exists>r k. CustomGet w rawurl [] = Inr r \<and> StatusCode r = 200 \<and>
        fst (os_Create w (fs st) (dest @ ''.tmp'')) = None \<and>
        copy_fault w = Some k \<and> res = Some ErrorDownloading \<and>
        st' = st\<lparr>fs := (fs st)(Clean (dest @ ''.tmp'') \<mapsto> File (take k (Body r))),
                  trace := trace st @ [EvCreate (dest @ ''.tmp''), EvGet rawurl,
                                       EvWrite (dest @ ''.tmp'') (take k (Body r))]\<rparr>) \<or>
     (\<exists>r. CustomGet w rawurl [] = Inr r \<and> StatusCode r = 200 \<and>
        fst (os_Create w (fs st) (dest @ ''.tmp'')) = None \<and>
        copy_fault w = None \<and> close_fault w \<and> res = Some CannotClose \<and>
        st' = st\<lparr>fs := (fs st)(Clean (dest @ ''.tmp'') \<mapsto> File (Body r)),
                  trace := trace st @ [EvCreate (dest @ ''.tmp''), EvGet rawurl,
                                       EvWrite (dest @ ''.tmp'') (Body r),
                                       EvClose (dest @ ''.tmp'')]\<rparr>) \<or>
     (\<exists>r. CustomGet w rawurl [] = Inr r \<and> StatusCode r = 200 \<and>
        fst (os_Create w (fs st) (dest @ ''.tmp'')) = None \<and>
        copy_fault w = None \<and> \<not> close_fault w \<and>
        res = Some (CannotRename (dest @ ''.tmp'') dest) \<and>
        st' = st\<lparr>fs := (fs st)(Clean (dest @ ''.tmp'') \<mapsto> File (Body r)),
                  trace := trace st @ [EvCreate (dest @ ''.tmp''), EvGet rawurl,
                                       EvWrite (dest @ ''.tmp'') (Body r),
                                       EvClose (dest @ ''.tmp''),
                                       EvRename (dest @ ''.tmp'') dest]\<rparr>) \<or>
     (\<exists>r. CustomGet w rawurl [] = Inr r \<and> StatusCode r = 200 \<and>
        fst (os_Create w (fs st) (dest @ ''.tmp'')) = None \<and>
        copy_fault w = None \<and> \<not> close_fault w \<and> res = None \<and>
        st' = st\<lparr>fs := ((fs st)(Clean (dest @ ''.tmp'') := None))
                            (Clean dest \<mapsto> File (Body r)),
                  trace := trace st @ [EvCreate (dest @ ''.tmp''), EvGet rawurl,
                                       EvWrite (dest @ ''.tmp'') (Body r),
                                       EvClose (dest @ ''.tmp''),
                                       EvRename (dest @ ''.tmp'') dest]\<rparr>)"
  using assms Clean_tmp_neq [of dest]
  apply (simp add: download_def Let_def emit_def split: prod.splits option.splits sum.splits if_splits)
  apply (auto dest!: os_Create_cases os_Rename_cases io_Copy_cases simp: append_file_def)
  done

text \<open>
  C2. Whenever \<open>download\<close> ends in a fatal error (the temporary file cannot be created,
  the connection fails, the status is not 200, the copy of the body fails, the destination
  cannot be closed, or the rename itself fails), the final path holds what it held before
  the call, so no file is created there; the only path that may differ is the one with
  the suffix \<open>.tmp\<close>, which then holds a prefix of the response body. The final path
  changes only when the call succeeds, and then to the whole body of a response with
  status 200.
\<close>

theorem download_failure_leaves_final_path:
  assumes "download w st rawurl dest = (res, st')"
  shows "(res \<noteq> None \<longrightarrow>
            fs st' (Clean dest) = fs st (Clean dest) \<and>
            (\<forall>p. p \<noteq> Clean (dest @ ''.tmp'') \<longrightarrow> fs st' p = fs st p) \<and>
            (fs st' (Clean (dest @ ''.tmp'')) = fs st (Clean (dest @ ''.tmp'')) \<or>
             fs st' (Clean (dest @ ''.tmp'')) = Some (File []) \<or>
             (\<exists>r k. CustomGet w rawurl [] = Inr r \<and>
                fs st' (Clean (dest @ ''.tmp'')) = Some (File (take k (Body r)))))) \<and>
         (fs st' (Clean dest) \<noteq> fs st (Clean dest) \<longrightarrow>
            res = None \<and>
            (\<exists>r. CustomGet w rawurl [] = Inr r \<and> StatusCode r = 200 \<and>
               fs st' (Clean dest) = Some (File (Body r))))"
proof -
  note neq = Clean_tmp_neq [of dest]
  have full: "\<exists>k. fs s (Clean (dest @ ''.tmp'')) = Some (File (take k b))"
    if "fs s (Clean (dest @ ''.tmp'')) = Some (File b)" for s b
    using that by (intro exI [of _ "length b"]) simp
  from download_cases [OF assms] show ?thesis
  proof (elim disjE exE conjE)
    fix r
    assume "CustomGet w rawurl [] = Inr r" "res = Some CannotClose"
      "st' = st\<lparr>fs := (fs st)(Clean (dest @ ''.tmp'') \<mapsto> File (Body r)),
                trace := trace st @ [EvCreate (dest @ ''.tmp''), EvGet rawurl,
                                     EvWrite (dest @ ''.tmp'') (Body r),
                                     EvClose (dest @ ''.tmp'')]\<rparr>"
    then show ?thesis using neq full [of st' "Body r"] by auto
  next
    fix r
    assume "CustomGet w rawurl [] = Inr r" "res = Some (CannotRename (dest @ ''.tmp'') dest)"
      "st' = st\<lparr>fs := (fs st)(Clean (dest @ ''.tmp'') \<mapsto> File (Body r)),
                trace := trace st @ [EvCreate (dest @ ''.tmp''), EvGet rawurl,
                                     EvWrite (dest @ ''.tmp'') (Body r),
                                     EvClose (dest @ ''.tmp''),
                                     EvRename (dest @ ''.tmp'') dest]\<rparr>"
    then show ?thesis using neq full [of st' "Body r"] by auto
  qed (use neq in auto)
qed

lemmas path_eval = Clean_def rooted_def clean_step_def render_def filepath_Join_def
  parent_def Stat_def base_dir_def

lemmas download_eval = download_def os_Create_def Create_def emit_def CustomGet_def
  CustomGet_prepare_def NewRequest_def HasPrefix_def Header_Set_def SetCookies_def Let_def
  io_Copy_def os_Rename_def Rename_def append_file_def example_world_def example_state_def

theorem download_failure_leaves_final_path_witness:
  "\<exists>st'. download (example_world\<lparr>copy_fault := Some 2\<rparr>) example_state
            ''http://x/files/setup.exe'' ''cache/AB.exe'' = (Some ErrorDownloading, st') \<and>
         fs st' (Clean ''cache/AB.exe'') = None \<and>
         fs st' (Clean ''cache/AB.exe.tmp'') = Some (File ''MZ'')"
proof -
  let ?w = "example_world\<lparr>copy_fault := Some 2\<rparr>"
  obtain st' where h: "download ?w example_state ''http://x/files/setup.exe'' ''cache/AB.exe''
      = (Some ErrorDownloading, st')"
    and t: "fs st' (Clean ''cache/AB.exe.tmp'') = Some (File ''MZ'')"
    by (simp add: download_eval path_eval)
  have "fs example_state (Clean ''cache/AB.exe'') = None"
    by (simp add: example_state_def path_eval)
  with download_failure_leaves_final_path [OF h] h t show ?thesis by simp
qed

text \<open>
  C7. Once the temporary file is created and the server has answered, a status outside the
  range 200 to 299 makes \<open>download\<close> end in the fatal error that reports this status, and
  the final path holds what it held before: no file appears there. (The source compares
  with 200, so the same holds for every status other than 200.)
\<close>

theorem download_unexpected_status:
  assumes "fst (os_Create w (fs st) (dest @ ''.tmp'')) = None"
    and "CustomGet w rawurl [] = Inr r"
    and "StatusCode r < 200 \<or> 299 < StatusCode r"
  shows "\<exists>st'. download w st rawurl dest = (Some (UnexpectedStatus (StatusCode r)), st') \<and>
           fs st' (Clean dest) = fs st (Clean dest)"
proof -
  obtain res st' where h: "download w st rawurl dest = (res, st')"
    by (cases "download w st rawurl dest")
  from download_cases [OF h] assms Clean_tmp_neq [of dest]
  have "res = Some (UnexpectedStatus (StatusCode r)) \<and> fs st' (Clean dest) = fs st (Clean dest)"
    by (elim disjE exE conjE) auto
  with h show ?thesis by simp
qed

theorem download_unexpected_status_witness:
  "\<exists>st'. download (example_world\<lparr>client_Do := \<lambda>c r. Inr \<lparr>StatusCode = 404, Body = ''gone''\<rparr>\<rparr>)
            example_state ''http://x/files/setup.exe'' ''cache/AB.exe''
            = (Some (UnexpectedStatus 404), st') \<and>
         fs st' (Clean ''cache/AB.exe'') = None"
proof -
  let ?w = "example_world\<lparr>client_Do := \<lambda>c r. Inr \<lparr>StatusCode = 404, Body = ''gone''\<rparr>\<rparr>"
  have a: "fst (os_Create ?w (fs example_state) (''cache/AB.exe'' @ ''.tmp'')) = None"
    by (simp add: download_eval path_eval)
  have b: "CustomGet ?w ''http://x/files/setup.exe'' [] = Inr \<lparr>StatusCode = 404, Body = ''gone''\<rparr>"
    by (simp add: download_eval)
  have c: "StatusCode \<lparr>StatusCode = 404, Body = ''gone''\<rparr> < 200 \<or>
           299 < StatusCode \<lparr>StatusCode = 404, Body = ''gone''\<rparr>"
    by simp
  have "fs example_state (Clean ''cache/AB.exe'') = None"
    by (simp add: example_state_def path_eval)
  with download_unexpected_status [OF a b c] show ?thesis by simp
qed

text \<open>
  C10. The operations one call of \<open>download\<close> issues are appended to the trace. Every
  write among them goes to the name with the suffix \<open>.tmp\<close>; the only operation that
  acts on the final path is the rename of the temporary name to the final one; that rename
  is issued only as the last of five operations, after the whole body has been written and
  the destination closed without a failure. So a call that ends in a fatal error, at any
  point, leaves the final path with the node it had before, content included.
\<close>

theorem download_writes_only_temporary:
  assumes "download w st rawurl dest = (res, st')"
  shows "\<exists>new. trace st' = trace st @ new \<and>
           (\<forall>e \<in> set new.
              (\<forall>p bytes. e = EvWrite p bytes \<longrightarrow> p = dest @ ''.tmp'') \<and>
              ((\<exists>n \<in> set (event_names e). Clean n = Clean dest) \<longrightarrow>
                 e = EvRename (dest @ ''.tmp'') dest)) \<and>
           (EvRename (dest @ ''.tmp'') dest \<in> set new \<longrightarrow>
              (\<exists>r. CustomGet w rawurl [] = Inr r \<and> copy_fault w = None \<and> \<not> close_fault w \<and>
                 new = [EvCreate (dest @ ''.tmp''), EvGet rawurl,
                        EvWrite (dest @ ''.tmp'') (Body r), EvClose (dest @ ''.tmp''),
                        EvRename (dest @ ''.tmp'') dest])) \<and>
           (res \<noteq> None \<longrightarrow> fs st' (Clean dest) = fs st (Clean dest))"
  using download_cases [OF assms] Clean_tmp_neq [of dest]
  by (elim disjE exE conjE) auto

theorem download_writes_only_temporary_witness:
  "\<exists>st'. download (example_world\<lparr>close_fault := True\<rparr>)
            (example_state\<lparr>fs := (fs example_state)([''cache'', ''AB.exe''] \<mapsto> File ''old'')\<rparr>)
            ''http://x/files/setup.exe'' ''cache/AB.exe'' = (Some CannotClose, st') \<and>
         fs st' (Clean ''cache/AB.exe'') = Some (File ''old'') \<and>
         trace st' = [EvCreate ''cache/AB.exe.tmp'', EvGet ''http://x/files/setup.exe'',
                      EvWrite ''cache/AB.exe.tmp'' ''MZdata'', EvClose ''cache/AB.exe.tmp'']"
proof -
  let ?w = "example_world\<lparr>close_fault := True\<rparr>"
  let ?st = "example_state\<lparr>fs := (fs example_state)([''cache'', ''AB.exe''] \<mapsto> File ''old'')\<rparr>"
  obtain st' where h: "download ?w ?st ''http://x/files/setup.exe'' ''cache/AB.exe''
      = (Some CannotClose, st')"
    and t: "trace st' = [EvCreate ''cache/AB.exe.tmp'', EvGet ''http://x/files/setup.exe'',
                      EvWrite ''cache/AB.exe.tmp'' ''MZdata'', EvClose ''cache/AB.exe.tmp'']"
    by (simp add: download_eval path_eval)
  have "fs ?st (Clean ''cache/AB.exe'') = Some (File ''old'')"
    by (simp add: example_state_def path_eval)
  with download_writes_only_temporary [OF h] h t show ?thesis by auto
qed

subsection \<open>Facts about \<open>Contains\<close>, \<open>crc32s\<close> and the trace\<close>

lemma HasPrefix_iff: "HasPrefix s pre \<longleftrightarrow> (\<exists>b. s = pre @ b)"
proof
  assume "HasPrefix s pre"
  then have "s = pre @ drop (length pre) s"
    by (metis HasPrefix_def append_take_drop_id)
  then show "\<exists>b. s = pre @ b" ..
next
  assume "\<exists>b. s = pre @ b"
  then show "HasPrefix s pre" by (auto simp: HasPrefix_def)
qed

lemma Contains_iff: "Contains s sub \<longleftrightarrow> (\<exists>a b. s = a @ sub @ b)"
proof (induction s)
  case Nil
  then show ?case by auto
next
  case (Cons c cs)
  have "(\<exists>a b. c # cs = a @ sub @ b) \<longleftrightarrow>
        (\<exists>b. c # cs = sub @ b) \<or> (\<exists>a b. cs = a @ sub @ b)"
  proof
    assume "\<exists>a b. c # cs = a @ sub @ b"
    then obtain a b where ab: "c # cs = a @ sub @ b" by blast
    show "(\<exists>b. c # cs = sub @ b) \<or> (\<exists>a b. cs = a @ sub @ b)"
    proof (cases a)
      case Nil
      with ab show ?thesis by auto
    next
      case (Cons x a')
      with ab have "cs = a' @ sub @ b" by simp
      then show ?thesis by blast
    qed
  next
    assume "(\<exists>b. c # cs = sub @ b) \<or> (\<exists>a b. cs = a @ sub @ b)"
    then show "\<exists>a b. c # cs = a @ sub @ b"
    proof
      assume "\<exists>b. c # cs = sub @ b"
      then obtain b where "c # cs = [] @ sub @ b" by auto
      then show ?thesis by blast
    next
      assume "\<exists>a b. cs = a @ sub @ b"
      then obtain a b where "c # cs = (c # a) @ sub @ b" by auto
      then show ?thesis by blast
    qed
  qed
  with Cons show ?case by (simp add: HasPrefix_iff)
qed

lemma format_X_digits: "set (format_X n) \<subseteq> set ''0123456789ABCDEF''"
proof (induction n rule: format_X.induct)
  case (1 n)
  have d: "hex_digit k \<in> set ''0123456789ABCDEF''" if "k < 16" for k
    unfolding hex_digit_def using that by (intro nth_mem) simp
  show ?case
  proof (cases "n < 16")
    case True
    then show ?thesis using d [of n] by (subst format_X.simps) simp
  next
    case False
    have "n mod 16 < 16" by simp
    with False 1 d [of "n mod 16"] show ?thesis
      by (subst format_X.simps) (simp del: format_X.simps)
  qed
qed

lemma digit_value_hex_digit: "k < 16 \<Longrightarrow> digit_value (hex_digit k) = k"
proof -
  assume "k < 16"
  then have "k = 0 \<or> k = 1 \<or> k = 2 \<or> k = 3 \<or> k = 4 \<or> k = 5 \<or> k = 6 \<or> k = 7 \<or>
             k = 8 \<or> k = 9 \<or> k = 10 \<or> k = 11 \<or> k = 12 \<or> k = 13 \<or> k = 14 \<or> k = 15"
    by arith
  then show ?thesis
    by (auto simp: digit_value_def hex_digit_def upt_rec)
qed

lemma hex_value_format_X: "hex_value (format_X n) = n"
proof (induction n rule: format_X.induct)
  case (1 n)
  show ?case
  proof (cases "n < 16")
    case True
    then show ?thesis
      by (subst format_X.simps) (simp add: hex_value_def digit_value_hex_digit)
  next
    case False
    with 1 have ih: "hex_value (format_X (n div 16)) = n div 16" by simp
    have "hex_value (format_X n) = 16 * hex_value (format_X (n div 16)) + digit_value (hex_digit (n mod 16))"
      using False by (subst format_X.simps) (simp add: hex_value_def del: format_X.simps)
    with ih show ?thesis by (simp add: digit_value_hex_digit)
  qed
qed

lemma IEEETable_unfold:
  "IEEETable i =
     crc_shift (crc_shift (crc_shift (crc_shift
       (crc_shift (crc_shift (crc_shift (crc_shift i)))))))"
  by (simp add: IEEETable_def eval_nat_numeral)

lemma ChecksumIEEE_unfold: "ChecksumIEEE s = foldl crc_byte 0xFFFFFFFF s XOR 0xFFFFFFFF"
proof -
  have m: "(0xFFFFFFFF :: 32 word) = - 1" by simp
  show ?thesis unfolding ChecksumIEEE_def m by simp
qed

lemmas crc_eval = crc_byte_def IEEETable_unfold crc_shift_def

text \<open>The check value of CRC-32: the model computes the standard checksum.\<close>

lemma crc32s_check_value: "crc32s ''123456789'' = ''CBF43926''"
proof -
  have "ChecksumIEEE ''123456789'' = 0xCBF43926"
    unfolding ChecksumIEEE_unfold by (simp add: crc_eval)
  then show ?thesis unfolding crc32s_def by (simp add: hex_digit_def)
qed

lemma requested_append: "requested (xs @ ys) = requested xs @ requested ys"
proof (induction xs)
  case Nil
  then show ?case by simp
next
  case (Cons e xs)
  then show ?case by (cases e) simp_all
qed

text \<open>
  C6. For every URL that \<open>http.NewRequest\<close> accepts, \<open>CustomGet\<close> is \<open>client.Do\<close> on a
  GET request for this URL and a client such that: the request has the User-Agent header
  \<open>chocolatey command line\<close> exactly when the URL contains
  \<open>download-codeplex.sec.s-msft.com\<close>; it has the Referer header
  \<open>http://support.amd.com/\<close> exactly when the URL contains \<open>ati.com\<close>; and the client's
  cookie jar holds the cookie \<open>oraclelicense\<close> under the two Oracle base URLs, whatever
  the request URL is.
\<close>

theorem CustomGet_quirks:
  assumes "url_Parse w urlStr \<noteq> None"
  shows "\<exists>cl req j. CustomGet w urlStr timeout = client_Do w cl req \<and>
           Method req = ''GET'' \<and> RequestURL req = urlStr \<and>
           Header req ''User-Agent'' =
             (if Contains urlStr ''download-codeplex.sec.s-msft.com''
              then Some ''chocolatey command line'' else None) \<and>
           Header req ''Referer'' =
             (if Contains urlStr ''ati.com'' then Some ''http://support.amd.com/'' else None) \<and>
           Jar cl = Some j \<and>
           j ''http://download.oracle.com'' =
             Some [(''oraclelicense'', ''accept-securebackup-cookie'')] \<and>
           j ''https://edelivery.oracle.com'' =
             Some [(''oraclelicense'', ''accept-securebackup-cookie'')]"
proof -
  from assms obtain u where u: "url_Parse w urlStr = Some u" by auto
  obtain cl req where p: "CustomGet_prepare w urlStr timeout = Some (cl, req)"
    using u by (simp add: CustomGet_prepare_def NewRequest_def Let_def)
  have call: "CustomGet w urlStr timeout = client_Do w cl req"
    using p by (simp add: CustomGet_def)
  let ?j = "[''http://download.oracle.com'' \<mapsto> oracleCookies,
             ''https://edelivery.oracle.com'' \<mapsto> oracleCookies]"
  from p u have req: "Method req = ''GET''" "RequestURL req = urlStr"
    "Header req ''User-Agent'' =
       (if Contains urlStr ''download-codeplex.sec.s-msft.com''
        then Some ''chocolatey command line'' else None)"
    "Header req ''Referer'' =
       (if Contains urlStr ''ati.com'' then Some ''http://support.amd.com/'' else None)"
    and cl: "Jar cl = Some ?j"
    by (auto simp: CustomGet_prepare_def NewRequest_def Header_Set_def SetCookies_def Let_def
        split: if_splits)
  have "?j ''http://download.oracle.com'' =
          Some [(''oraclelicense'', ''accept-securebackup-cookie'')]"
    and "?j ''https://edelivery.oracle.com'' =
          Some [(''oraclelicense'', ''accept-securebackup-cookie'')]"
    by (simp_all add: oracleCookies_def)
  with call req cl show ?thesis by blast
qed

theorem CustomGet_quirks_witness:
  "\<exists>cl req j.
     CustomGet example_world ''http://download-codeplex.sec.s-msft.com/ati.com'' []
       = client_Do example_world cl req \<and>
     Method req = ''GET'' \<and>
     RequestURL req = ''http://download-codeplex.sec.s-msft.com/ati.com'' \<and>
     Header req ''User-Agent'' = Some ''chocolatey command line'' \<and>
     Header req ''Referer'' = Some ''http://support.amd.com/'' \<and>
     Jar cl = Some j \<and>
     j ''http://download.oracle.com'' =
       Some [(''oraclelicense'', ''accept-securebackup-cookie'')] \<and>
     j ''https://edelivery.oracle.com'' =
       Some [(''oraclelicense'', ''accept-securebackup-cookie'')]"
proof -
  let ?u = "''http://download-codeplex.sec.s-msft.com/ati.com''"
  have p: "url_Parse example_world ?u \<noteq> None"
    by (simp add: example_world_def)
  have "?u = ''http://'' @ ''download-codeplex.sec.s-msft.com'' @ ''/ati.com''"
    by simp
  then have c1: "Contains ?u ''download-codeplex.sec.s-msft.com''"
    unfolding Contains_iff by blast
  have "?u = ''http://download-codeplex.sec.s-msft.com/'' @ ''ati.com'' @ []"
    by simp
  then have c2: "Contains ?u ''ati.com''"
    unfolding Contains_iff by blast
  from CustomGet_quirks [OF p, of "[]"] show ?thesis
    unfolding if_P [OF c1] if_P [OF c2] .
qed

subsection \<open>The cache path and the cache hit\<close>

lemma crc32s_example: "crc32s ''http://x/files/setup.exe'' = ''C8607351''"
proof -
  have "ChecksumIEEE ''http://x/files/setup.exe'' = 0xC8607351"
    unfolding ChecksumIEEE_unfold by (simp add: crc_eval)
  then show ?thesis unfolding crc32s_def by (simp add: hex_digit_def)
qed

lemma downloadExt_Inr:
  assumes "downloadExt w st rawurl ext force = (Inr p, st')"
  shows "\<exists>u. url_Parse w rawurl = Some u \<and>
           p = filepath_Join (tempPath w)
                 (crc32s rawurl @ (if ext \<noteq> [] then ext else filepath_Ext (Path u)))"
  using assms
  by (auto simp: downloadExt_def downloadTemp_def Let_def split: option.splits prod.splits)

lemma download_success_exists:
  assumes "download w st rawurl dest = (None, st')"
  shows "FileExists (fs st') dest"
  using download_cases [OF assms] by (auto simp: FileExists_def Stat_def)

lemma download_requests:
  assumes "download w st rawurl dest = (res, st')"
    and "fst (os_Create w (fs st) (dest @ ''.tmp'')) = None"
  shows "requested (trace st') = requested (trace st) @ [rawurl]"
  using download_cases [OF assms(1)] assms(2)
  by (elim disjE exE conjE) (simp_all add: requested_append)

text \<open>
  C4. A path that \<open>downloadExt\<close> returns is \<open>tempPath\<close> joined with a name made of
  the CRC32 checksum of the URL string, written as \<open>%X\<close> writes it (upper-case
  hexadecimal digits that denote the checksum), followed by \<open>ext\<close> when it is not
  empty, and by the extension of the parsed URL's path otherwise. Nothing else enters: any
  other call for the same URL and extension, in any state of the file system, with any
  flag and any behaviour of the network, returns the same path.
\<close>

theorem downloadExt_path_deterministic:
  assumes "downloadExt w st rawurl ext force = (Inr p, st')"
  shows "(\<exists>u. url_Parse w rawurl = Some u \<and>
            p = filepath_Join (tempPath w)
                  (format_X (unat (ChecksumIEEE rawurl)) @
                   (if ext \<noteq> [] then ext else filepath_Ext (Path u)))) \<and>
         set (format_X (unat (ChecksumIEEE rawurl))) \<subseteq> set ''0123456789ABCDEF'' \<and>
         hex_value (format_X (unat (ChecksumIEEE rawurl))) = unat (ChecksumIEEE rawurl) \<and>
         (\<forall>w2 st2 force2 p2 st2'.
            downloadExt w2 st2 rawurl ext force2 = (Inr p2, st2') \<and>
            tempPath w2 = tempPath w \<and> url_Parse w2 rawurl = url_Parse w rawurl
            \<longrightarrow> p2 = p)"
proof (intro conjI allI impI)
  show "\<exists>u. url_Parse w rawurl = Some u \<and>
          p = filepath_Join (tempPath w)
                (format_X (unat (ChecksumIEEE rawurl)) @
                 (if ext \<noteq> [] then ext else filepath_Ext (Path u)))"
    using downloadExt_Inr [OF assms] unfolding crc32s_def .
  show "set (format_X (unat (ChecksumIEEE rawurl))) \<subseteq> set ''0123456789ABCDEF''"
    by (rule format_X_digits)
  show "hex_value (format_X (unat (ChecksumIEEE rawurl))) = unat (ChecksumIEEE rawurl)"
    by (rule hex_value_format_X)
next
  fix w2 st2 force2 p2 st2'
  assume a: "downloadExt w2 st2 rawurl ext force2 = (Inr p2, st2') \<and>
             tempPath w2 = tempPath w \<and> url_Parse w2 rawurl = url_Parse w rawurl"
  from a downloadExt_Inr [of w2 st2 rawurl ext force2 p2 st2'] downloadExt_Inr [OF assms]
  show "p2 = p" by auto
qed

lemmas downloadExt_eval = downloadExt_def downloadTemp_def maybeDownload_def FileExists_def
  filepath_Ext_def crc32s_example

theorem downloadExt_path_deterministic_witness:
  "\<exists>st'. downloadExt example_world example_state ''http://x/files/setup.exe'' [] False
            = (Inr ''cache/C8607351.exe'', st') \<and>
         (\<forall>w2 st2 force2 p2 st2'.
            downloadExt w2 st2 ''http://x/files/setup.exe'' [] force2 = (Inr p2, st2') \<and>
            tempPath w2 = tempPath example_world \<and>
            url_Parse w2 ''http://x/files/setup.exe''
              = url_Parse example_world ''http://x/files/setup.exe''
            \<longrightarrow> p2 = ''cache/C8607351.exe'')"
proof -
  obtain st' where h: "downloadExt example_world example_state ''http://x/files/setup.exe''
      [] False = (Inr ''cache/C8607351.exe'', st')"
    by (simp add: downloadExt_eval download_eval path_eval)
  from downloadExt_path_deterministic [OF h] h show ?thesis by blast
qed

text \<open>
  C5. Let \<open>path\<close> be the cache path of a URL that parses. If something exists at
  \<open>path\<close> and \<open>force\<close> is false, \<open>downloadExt\<close> returns \<open>path\<close> and the state it was
  given: no request is sent and the file system is not touched. Otherwise it runs
  \<open>download\<close>, which sends exactly one request for the URL as soon as the temporary file
  is created; with \<open>force\<close> true this holds even when the cache entry exists. And after a
  call that returned \<open>path\<close>, a call with \<open>force\<close> false returns \<open>path\<close> again and
  leaves the state as it is, whatever the network and the disk would do.
\<close>

theorem downloadExt_cache_hit:
  assumes "url_Parse w rawurl = Some u"
    and "path = filepath_Join (tempPath w)
                  (crc32s rawurl @ (if ext \<noteq> [] then ext else filepath_Ext (Path u)))"
  shows "(FileExists (fs st) path \<and> \<not> force \<longrightarrow>
            downloadExt w st rawurl ext force = (Inr path, st)) \<and>
         (\<not> FileExists (fs st) path \<or> force \<longrightarrow>
            (\<exists>res st'. download w st rawurl path = (res, st') \<and>
               downloadExt w st rawurl ext force
                 = ((case res of None \<Rightarrow> Inr path | Some f \<Rightarrow> Inl f), st') \<and>
               (fst (os_Create w (fs st) (path @ ''.tmp'')) = None \<longrightarrow>
                  requested (trace st') = requested (trace st) @ [rawurl]))) \<and>
         (\<forall>st1 w2. downloadExt w st rawurl ext force = (Inr path, st1) \<and>
              url_Parse w2 rawurl = Some u \<and> tempPath w2 = tempPath w \<longrightarrow>
              downloadExt w2 st1 rawurl ext False = (Inr path, st1))"
proof -
  have unf: "downloadExt w' s rawurl ext f =
      (case maybeDownload w' s rawurl path f of
         (Some e, s') \<Rightarrow> (Inl e, s') | (None, s') \<Rightarrow> (Inr path, s'))"
    if "url_Parse w' rawurl = Some u" "tempPath w' = tempPath w" for w' s f
    using that unfolding assms(2)
    by (cases "ext = []") (simp_all add: downloadExt_def downloadTemp_def Let_def)
  have hit: "downloadExt w' s rawurl ext False = (Inr path, s)"
    if "FileExists (fs s) path" "url_Parse w' rawurl = Some u" "tempPath w' = tempPath w"
    for w' s
    using that by (simp add: unf maybeDownload_def)
  have c1: "FileExists (fs st) path \<and> \<not> force \<longrightarrow>
            downloadExt w st rawurl ext force = (Inr path, st)"
    using hit [of st w] assms(1) by auto
  have c2: "\<exists>res st'. download w st rawurl path = (res, st') \<and>
               downloadExt w st rawurl ext force
                 = ((case res of None \<Rightarrow> Inr path | Some f \<Rightarrow> Inl f), st') \<and>
               (fst (os_Create w (fs st) (path @ ''.tmp'')) = None \<longrightarrow>
                  requested (trace st') = requested (trace st) @ [rawurl])"
    if miss: "\<not> FileExists (fs st) path \<or> force"
  proof -
    obtain res st' where d: "download w st rawurl path = (res, st')"
      by (cases "download w st rawurl path")
    have "downloadExt w st rawurl ext force
            = ((case res of None \<Rightarrow> Inr path | Some f \<Rightarrow> Inl f), st')"
      using miss d assms(1) by (auto simp: unf maybeDownload_def split: option.splits)
    moreover have "fst (os_Create w (fs st) (path @ ''.tmp'')) = None \<longrightarrow>
        requested (trace st') = requested (trace st) @ [rawurl]"
      using download_requests [OF d] by simp
    ultimately show ?thesis using d by (intro exI [of _ res] exI [of _ st']) simp
  qed
  have c3: "downloadExt w2 st1 rawurl ext False = (Inr path, st1)"
    if a: "downloadExt w st rawurl ext force = (Inr path, st1)"
      "url_Parse w2 rawurl = Some u" "tempPath w2 = tempPath w" for st1 w2
  proof -
    have "FileExists (fs st1) path"
    proof (cases "\<not> FileExists (fs st) path \<or> force")
      case True
      with a(1) assms(1) have "download w st rawurl path = (None, st1)"
        by (auto simp: unf maybeDownload_def split: option.splits prod.splits)
      then show ?thesis by (rule download_success_exists)
    next
      case False
      with a(1) assms(1) have "st1 = st"
        by (auto simp: unf maybeDownload_def)
      with False show ?thesis by simp
    qed
    with a show ?thesis using hit [of st1 w2] by simp
  qed
  show ?thesis
  proof (intro conjI allI impI)
    assume "FileExists (fs st) path \<and> \<not> force"
    with c1 show "downloadExt w st rawurl ext force = (Inr path, st)" by simp
  next
    assume "\<not> FileExists (fs st) path \<or> force"
    then show "\<exists>res st'. download w st rawurl path = (res, st') \<and>
               downloadExt w st rawurl ext force
                 = ((case res of None \<Rightarrow> Inr path | Some f \<Rightarrow> Inl f), st') \<and>
               (fst (os_Create w (fs st) (path @ ''.tmp'')) = None \<longrightarrow>
                  requested (trace st') = requested (trace st) @ [rawurl])"
      by (rule c2)
  next
    fix st1 and w2 :: world
    assume "downloadExt w st rawurl ext force = (Inr path, st1) \<and>
              url_Parse w2 rawurl = Some u \<and> tempPath w2 = tempPath w"
    then show "downloadExt w2 st1 rawurl ext False = (Inr path, st1)"
      using c3 [of st1 w2] by simp
  qed
qed

theorem downloadExt_cache_hit_witness:
  "\<exists>st1 st2.
     downloadExt example_world example_state ''http://x/files/setup.exe'' [] False
       = (Inr ''cache/C8607351.exe'', st1) \<and>
     requested (trace st1) = [''http://x/files/setup.exe''] \<and>
     downloadExt (example_world\<lparr>client_Do := \<lambda>c r. Inl TransportError\<rparr>) st1
       ''http://x/files/setup.exe'' [] False = (Inr ''cache/C8607351.exe'', st1) \<and>
     downloadExt example_world st1 ''http://x/files/setup.exe'' [] True
       = (Inr ''cache/C8607351.exe'', st2) \<and>
     requested (trace st2) = [''http://x/files/setup.exe'', ''http://x/files/setup.exe'']"
proof -
  let ?url = "''http://x/files/setup.exe''"
  let ?w2 = "example_world\<lparr>client_Do := \<lambda>c r. Inl TransportError\<rparr>"
  have u: "url_Parse example_world ?url = Some \<lparr>Path = ''/files/setup.exe''\<rparr>"
    by (simp add: example_world_def)
  have p: "''cache/C8607351.exe'' = filepath_Join (tempPath example_world)
       (crc32s ?url @ (if [] \<noteq> [] then [] else filepath_Ext (Path \<lparr>Path = ''/files/setup.exe''\<rparr>)))"
    by (simp add: example_world_def crc32s_example filepath_Ext_def path_eval)
  note inst = downloadExt_cache_hit [OF u p]
  obtain st1 where h1: "downloadExt example_world example_state ?url [] False
      = (Inr ''cache/C8607351.exe'', st1)"
    and r1: "requested (trace st1) = [?url]"
    and f1: "fs st1 [''cache''] = Some Dir" "fs st1 [''cache'', ''C8607351.exe.tmp''] = None"
      "fs st1 [''cache'', ''C8607351.exe''] = Some (File ''MZdata'')"
    by (simp add: downloadExt_eval download_eval path_eval)
  have h2: "downloadExt ?w2 st1 ?url [] False = (Inr ''cache/C8607351.exe'', st1)"
    using inst [of example_state False] h1 by (simp add: example_world_def)
  have c: "fst (os_Create example_world (fs st1) (''cache/C8607351.exe'' @ ''.tmp'')) = None"
    using f1 by (simp add: os_Create_def Create_def example_world_def path_eval)
  from inst [of st1 True] c obtain res st2
    where d: "download example_world st1 ?url ''cache/C8607351.exe'' = (res, st2)"
      and h3: "downloadExt example_world st1 ?url [] True
                 = ((case res of None \<Rightarrow> Inr ''cache/C8607351.exe'' | Some f \<Rightarrow> Inl f), st2)"
      and r3: "requested (trace st2) = requested (trace st1) @ [?url]"
    by auto
  have "res = None"
    using d f1
    by (simp add: download_eval path_eval split: option.splits if_splits)
  with h1 r1 h2 h3 r3 show ?thesis by auto
qed

subsection \<open>Extraction\<close>

lemmas extract_eval = extractZip_def os_MkdirAll_def filepath_Dir_def copied_def Mkdir_def
  os_Create_def Create_def append_file_def example_world_def Let_def

text \<open>
  C9. The claim asks for an error whenever an entry cannot be read, a failure while its
  content is streamed included. The source drops the result of \<open>io.Copy\<close>: for an archive
  whose only entry \<open>a/b.txt\<close> holds \<open>hello\<close> and whose stream fails after two bytes,
  \<open>extractZip\<close> returns nil and leaves a file with the two bytes \<open>he\<close> at the
  destination.
\<close>

theorem extractZip_ignores_read_failure:
  "\<exists>t. extractZip
          (example_world\<lparr>zip_OpenReader :=
             (\<lambda>n. Some [\<lparr>Name = ''a/b.txt'', IsDir = False, Mode = 420, Content = ''hello'',
                          Open_fails = False, Read_fault = Some 2\<rparr>])\<rparr>)
          Map.empty ''pkg.zip'' ''out'' = (None, t) \<and>
        t [''out'', ''a'', ''b.txt''] = Some (File ''he'')"
  by (simp add: extract_eval path_eval)

subsection \<open>Cleaned paths are written and read back unchanged\<close>















subsection \<open>Making directories\<close>






subsection \<open>Extraction of a consistent archive\<close>






subsection \<open>Template expansion\<close>

lemmas expand_eval = expandString_def environMap_def Parse_def classify_def trim_blanks_def
  is_blank_def is_alnum_def is_digit_def add_text_def add_field_def Execute_def exec_node_def
  Replace_def ToUpper_def upper_char_def is_ascii_def HasPrefix_def Let_def

lemma SplitN2_eq:
  "CHR ''='' \<in> set v \<Longrightarrow>
     SplitN2 v = [takeWhile (\<lambda>c. c \<noteq> CHR ''='') v, tl (dropWhile (\<lambda>c. c \<noteq> CHR ''='') v)]"
  by (induction v) auto

lemma environ_loop_returns:
  "\<forall>v \<in> set environ. CHR ''='' \<in> set v \<and> is_ascii (takeWhile (\<lambda>c. c \<noteq> CHR ''='') v) \<Longrightarrow>
     \<exists>env. environ_loop environ ret = Returned env"
proof (induction environ arbitrary: ret)
  case Nil
  then show ?case by simp
next
  case (Cons v environ)
  then have "SplitN2 v = [takeWhile (\<lambda>c. c \<noteq> CHR ''='') v, tl (dropWhile (\<lambda>c. c \<noteq> CHR ''='') v)]"
    and "is_ascii (takeWhile (\<lambda>c. c \<noteq> CHR ''='') v)"
    by (simp_all add: SplitN2_eq)
  with Cons show ?case by simp
qed

text \<open>
  C3, as stated, fails: with an empty environment and an empty context the template
  \<open>http://x/{{.FOO}}\<close> refers to a variable that the merged context does not have, and
  \<open>expandString\<close> returns, with the placeholder of \<open>text/template\<close> in the output.
\<close>

theorem expandString_missing_variable_returns:
  "expandString [] ''http://x/{{.FOO}}'' Map.empty = Returned ''http://x/<no value>''"
  by (simp add: expand_eval)

text \<open>
  C3, amended. For every environment in which each entry has an equals sign and a name
  of ASCII bytes before it (\<open>environMap\<close> then returns the normalised environment), every
  template that parses (in the modelled fragment: literal text and references
  \<open>{{.NAME}}\<close>) and every context, \<open>expandString\<close> returns: the output is the literal
  text with every reference replaced by the caller's entry for the name, else by the entry
  of the normalised environment, else, when the merged context has no such name, by the
  placeholder \<open><no value>\<close>. A reference to a missing variable does not fail the
  expansion.
\<close>

theorem expandString_substitutes:
  assumes "\<forall>v \<in> set environ.
             CHR ''='' \<in> set v \<and> is_ascii (takeWhile (\<lambda>c. c \<noteq> CHR ''='') v)"
    and "Parse s = Parsed ns"
  shows "\<exists>env. environMap environ = Returned env \<and>
           expandString environ s context =
             Returned (concat (map (\<lambda>n. case n of
                                            TextNode t \<Rightarrow> t
                                          | FieldNode f \<Rightarrow>
                                              (case context f of
                                                 Some v \<Rightarrow> v
                                               | None \<Rightarrow>
                                                   (case env f of
                                                      Some v \<Rightarrow> v
                                                    | None \<Rightarrow> ''<no value>''))) ns))"
proof -
  from environ_loop_returns [OF assms(1)] obtain env
    where env: "environMap environ = Returned env"
    unfolding environMap_def by blast
  have "exec_node (env ++ context) n =
          (case n of
             TextNode t \<Rightarrow> t
           | FieldNode f \<Rightarrow>
               (case context f of
                  Some v \<Rightarrow> v
                | None \<Rightarrow> (case env f of Some v \<Rightarrow> v | None \<Rightarrow> ''<no value>'')))" for n
    by (cases n) (simp_all add: exec_node_def map_add_def split: option.splits)
  then have "Execute ns (env ++ context) =
      concat (map (\<lambda>n. case n of
                         TextNode t \<Rightarrow> t
                       | FieldNode f \<Rightarrow>
                           (case context f of
                              Some v \<Rightarrow> v
                            | None \<Rightarrow> (case env f of Some v \<Rightarrow> v | None \<Rightarrow> ''<no value>''))) ns)"
    unfolding Execute_def by presburger
  with env assms(2) show ?thesis by (simp add: expandString_def)
qed

theorem expandString_substitutes_witness:
  "expandString [''ProgramFiles(x86)=C:/PF'', ''foo=bar'']
     ''{{.PROGRAMFILES_X86}}/{{ .FOO }}/{{.BAR}}'' [''FOO'' \<mapsto> ''baz'']
   = Returned ''C:/PF/baz/<no value>''"
proof -
  have a: "\<forall>v \<in> set [''ProgramFiles(x86)=C:/PF'', ''foo=bar''].
             CHR ''='' \<in> set v \<and> is_ascii (takeWhile (\<lambda>c. c \<noteq> CHR ''='') v)"
    by (simp add: is_ascii_def)
  have e: "environMap [''ProgramFiles(x86)=C:/PF'', ''foo=bar'']
             = Returned [''PROGRAMFILES_X86'' \<mapsto> ''C:/PF'', ''FOO'' \<mapsto> ''bar'']"
    by (simp add: expand_eval)
  have p: "Parse ''{{.PROGRAMFILES_X86}}/{{ .FOO }}/{{.BAR}}''
             = Parsed [FieldNode ''PROGRAMFILES_X86'', TextNode ''/'', FieldNode ''FOO'',
                       TextNode ''/'', FieldNode ''BAR'']"
    by (simp add: expand_eval)
  from expandString_substitutes [OF a p, of "[''FOO'' \<mapsto> ''baz'']"] e
  show ?thesis by simp
qed

end
